theory Spec2Isabelle
  imports Main
begin

section \<open>Python string primitives used by main.py\<close>

text \<open>
  Python strings are modelled as \<^typ>\<open>string\<close>; one \<^typ>\<open>char\<close> stands for one code point
  below 256. Lengths are Python's \<open>len\<close>, widths are Python integers.
\<close>

definition py_slice_to :: "'a list \<Rightarrow> int \<Rightarrow> 'a list" where
  \<comment> \<open>\<open>xs[:k]\<close>: a negative bound counts from the end.\<close>
  "py_slice_to xs k =
     (if k < 0 then take (nat (int (length xs) + k)) xs else take (nat k) xs)"

definition py_slice_from :: "'a list \<Rightarrow> int \<Rightarrow> 'a list" where
  \<comment> \<open>\<open>xs[k:]\<close>: a negative bound counts from the end.\<close>
  "py_slice_from xs k =
     (if k < 0 then drop (nat (int (length xs) + k)) xs else drop (nat k) xs)"

definition ljust :: "string \<Rightarrow> int \<Rightarrow> string" where
  \<comment> \<open>\<open>text.ljust(w)\<close>: pads with spaces on the right, never shortens.\<close>
  "ljust text w = text @ replicate (nat (w - int (length text))) CHR '' ''"

fun join :: "string \<Rightarrow> string list \<Rightarrow> string" where
  "join sep [] = []"
| "join sep [x] = x"
| "join sep (x # y # ys) = x @ sep @ join sep (y # ys)"

fun py_split :: "char \<Rightarrow> string \<Rightarrow> string list" where
  \<comment> \<open>\<open>s.split(sep)\<close> for a one-character separator: always at least one field.\<close>
  "py_split sep [] = [[]]"
| "py_split sep (c # cs) =
     (let r = py_split sep cs
      in if c = sep then [] # r else (c # hd r) # tl r)"

definition py_isspace :: "char \<Rightarrow> bool" where
  \<comment> \<open>\<open>str.isspace\<close> on the code points below 256.\<close>
  "py_isspace c =
     ((of_char c :: nat) \<in> {9, 10, 11, 12, 13, 28, 29, 30, 31, 32, 133, 160})"

definition strip :: "string \<Rightarrow> string" where
  \<comment> \<open>\<open>s.strip()\<close>: whitespace removed at both ends.\<close>
  "strip s = rev (dropWhile py_isspace (rev (dropWhile py_isspace s)))"

section \<open>The line codec\<close>

definition TITLE_WIDTH :: int where "TITLE_WIDTH = 50"
definition ARTIST_WIDTH :: int where "ARTIST_WIDTH = 40"
definition ID_WIDTH :: int where "ID_WIDTH = 22"

record artist =
  artist_name :: string

record track =
  track_name :: string
  track_artists :: "artist list"
  track_id :: string

datatype error =
    AssertionError string
  | TypeError
  | FileNotFoundError string
  | ApiError string

definition fit :: "string \<Rightarrow> int \<Rightarrow> string" where
  \<comment> \<open>The source's parameter \<open>length\<close> is written \<open>len\<close> here.\<close>
  "fit text len =
     (if int (length text) > len then py_slice_to text (len - 3) @ ''...''
      else ljust text len)"

definition track_to_str :: "track \<Rightarrow> error + string" where
  "track_to_str track =
     (let name_str = fit (track_name track) TITLE_WIDTH;
          artists = map artist_name (track_artists track);
          artists_str = fit (join '', '' artists) ARTIST_WIDTH;
          id_str = track_id track
      in if int (length id_str) = ID_WIDTH
         then Inr (name_str @ '' | '' @ artists_str @ '' | '' @ id_str)
         else Inl (AssertionError (''ID '' @ id_str @ '' is not 22 characters long'')))"

definition track_id_from_str :: "string \<Rightarrow> string" where
  "track_id_from_str track_str = strip (last (py_split CHR ''|'' track_str))"

section \<open>Text files\<close>

text \<open>
  A file system maps a path to the outcome of opening and reading the file there: the text,
  or the error raised (no such file, no permission, undecodable bytes). Opening a path for
  writing may raise as well, which a \<open>write_access\<close> tells. Text is written with
  \<open>\n\<close> as the line end (POSIX); reading splits at \<open>\n\<close>, \<open>\r\<close> and \<open>\r\n\<close> and hands
  each line back ending in \<open>\n\<close>, as Python's text mode does.
\<close>

abbreviation LF :: char where "LF \<equiv> CHR 0x0A"
abbreviation CR :: char where "CR \<equiv> CHR 0x0D"

type_synonym filesystem = "string \<Rightarrow> error + string"

type_synonym write_access = "string \<Rightarrow> error option"
  \<comment> \<open>The error that opening a path for writing raises (missing folder, no permission,
      name too long), or \<open>None\<close> when the file opens.\<close>

fun readlines_from :: "bool \<Rightarrow> string \<Rightarrow> string \<Rightarrow> string list" where
  \<comment> \<open>\<open>cr\<close>: the previous character was a carriage return, which already ended a line;
      \<open>line\<close>: the characters of the current line so far.\<close>
  "readlines_from cr line [] = (if line = [] then [] else [line])"
| "readlines_from cr line (c # cs) =
     (if c = LF then
        (if cr then readlines_from False line cs
         else (line @ [LF]) # readlines_from False [] cs)
      else if c = CR then (line @ [LF]) # readlines_from True [] cs
      else readlines_from False (line @ [c]) cs)"

definition readlines :: "string \<Rightarrow> string list" where
  "readlines content = readlines_from False [] content"

section \<open>The remote service\<close>

text \<open>
  Modelled from the spec: the client \<open>sp\<close> of the playlist service (the \<open>spotipy\<close> library
  and the service behind it) is used by main.py and is not part of the repository. The
  specification describes its interface: a playlist is an ordered list; a page request with
  a limit and an offset returns that slice together with the total count; a replace call
  discards the contents and installs its chunk; an append call adds its chunk at the end.
  A write the service refuses (\<open>accepts\<close> is false on the chunk) raises and leaves the
  playlist as it was. Every call is logged in the order it is issued. The progress bar of
  main.py only displays counts and is left out.
\<close>

datatype api_call =
    Playlist
  | PlaylistTracks int int
  | PlaylistReplaceItems "string list"
  | PlaylistAddItems "string list"

record 'a spotify =
  sp_calls :: "api_call list"
  sp_items :: "'a list"

record 'a page =
  total :: int
  items :: "'a list"

definition sp_playlist :: "'a spotify \<Rightarrow> 'a spotify" where
  \<comment> \<open>\<open>sp.playlist(playlist_id)\<close>: only the name is read, for the progress text.\<close>
  "sp_playlist sp = sp\<lparr>sp_calls := sp_calls sp @ [Playlist]\<rparr>"

definition sp_playlist_tracks :: "int \<Rightarrow> int \<Rightarrow> 'a spotify \<Rightarrow> 'a page \<times> 'a spotify" where
  "sp_playlist_tracks limit offset sp =
     (\<lparr>total = int (length (sp_items sp)),
       items = take (nat limit) (drop (nat offset) (sp_items sp))\<rparr>,
      sp\<lparr>sp_calls := sp_calls sp @ [PlaylistTracks limit offset]\<rparr>)"

definition sp_playlist_replace_items ::
  "(string list \<Rightarrow> bool) \<Rightarrow> string list \<Rightarrow> string spotify \<Rightarrow> (error + unit) \<times> string spotify" where
  "sp_playlist_replace_items accepts chunk sp =
     (let sp' = sp\<lparr>sp_calls := sp_calls sp @ [PlaylistReplaceItems chunk]\<rparr>
      in if accepts chunk then (Inr (), sp'\<lparr>sp_items := chunk\<rparr>)
         else (Inl (ApiError ''playlist_replace_items''), sp'))"

definition sp_playlist_add_items ::
  "(string list \<Rightarrow> bool) \<Rightarrow> string list \<Rightarrow> string spotify \<Rightarrow> (error + unit) \<times> string spotify" where
  "sp_playlist_add_items accepts chunk sp =
     (let sp' = sp\<lparr>sp_calls := sp_calls sp @ [PlaylistAddItems chunk]\<rparr>
      in if accepts chunk then (Inr (), sp'\<lparr>sp_items := sp_items sp @ chunk\<rparr>)
         else (Inl (ApiError ''playlist_add_items''), sp'))"

definition max_chunk :: "string list \<Rightarrow> bool" where
  \<comment> \<open>The service's documented limit: at most 100 identifiers in one write.\<close>
  "max_chunk chunk = (length chunk \<le> 100)"

fun is_write :: "api_call \<Rightarrow> bool" where
  "is_write (PlaylistReplaceItems chunk) = True"
| "is_write (PlaylistAddItems chunk) = True"
| "is_write call = False"

fun call_ids :: "api_call \<Rightarrow> string list" where
  "call_ids (PlaylistReplaceItems chunk) = chunk"
| "call_ids (PlaylistAddItems chunk) = chunk"
| "call_ids call = []"

definition sent_ids :: "api_call list \<Rightarrow> string list" where
  \<comment> \<open>The identifiers carried by the write calls of a log, in the order sent.\<close>
  "sent_ids calls = concat (map call_ids calls)"

section \<open>Pull\<close>

definition chunk_size :: int where "chunk_size = 100"

record playlist_item =
  item_track :: "track option"
  \<comment> \<open>\<open>track['track']\<close>; the service reports \<open>None\<close> for an entry it cannot resolve.\<close>

function get_playlist_tracks_loop ::
  "int \<Rightarrow> int \<Rightarrow> playlist_item list \<Rightarrow> playlist_item spotify
     \<Rightarrow> playlist_item list \<times> playlist_item spotify" where
  "get_playlist_tracks_loop total_tracks offset tracks sp =
     (if offset < total_tracks then
        (let (response, sp') = sp_playlist_tracks chunk_size offset sp
         in get_playlist_tracks_loop total_tracks (offset + chunk_size)
              (tracks @ items response) sp')
      else (tracks, sp))"
  by pat_completeness auto
termination
  by (relation "measure (\<lambda>(total_tracks, offset, tracks, sp). nat (total_tracks - offset))")
     (auto simp: chunk_size_def)

definition get_playlist_tracks ::
  "playlist_item spotify \<Rightarrow> playlist_item list \<times> playlist_item spotify" where
  "get_playlist_tracks sp =
     (let (probe, sp1) = sp_playlist_tracks 1 0 sp;
          total_tracks = total probe;
          sp2 = sp_playlist sp1
      in get_playlist_tracks_loop total_tracks 0 [] sp2)"

datatype report = SeemsInvalid nat playlist_item
  \<comment> \<open>The printed message \<open>Track i seems invalid: track\<close>.\<close>

definition item_to_str :: "playlist_item \<Rightarrow> error + string" where
  \<comment> \<open>The expression \<open>track_to_str(track['track'])\<close>: subscripting \<open>None\<close> raises.\<close>
  "item_to_str track =
     (case item_track track of None \<Rightarrow> Inl TypeError | Some t \<Rightarrow> track_to_str t)"

fun write_tracks ::
  "nat \<Rightarrow> playlist_item list \<Rightarrow> string \<times> report list \<Rightarrow> string \<times> report list" where
  \<comment> \<open>The \<open>for i, track in enumerate(tracks)\<close> loop; the state is the text written so far
      and the messages printed so far.\<close>
  "write_tracks i [] (f, out) = (f, out)"
| "write_tracks i (track # rest) (f, out) =
     (case item_to_str track of
        Inr line \<Rightarrow> write_tracks (i + 1) rest (f @ line @ [LF], out)
      | Inl e \<Rightarrow>
          write_tracks (i + 1) rest (f @ ''INVALID TRACK'' @ [LF], out @ [SeemsInvalid i track]))"

definition pull_playlist_to_file ::
  "playlist_item spotify \<Rightarrow> write_access \<Rightarrow> filesystem \<Rightarrow> string
     \<Rightarrow> (error + unit) \<times> filesystem \<times> report list \<times> playlist_item spotify" where
  \<comment> \<open>The tracks are fetched first; \<open>open(file_path, 'w')\<close> then either raises, with
      nothing written or printed, or empties the file for the writing loop.\<close>
  "pull_playlist_to_file sp open_w fs file_path =
     (let (tracks, sp') = get_playlist_tracks sp
      in case open_w file_path of
           Some e \<Rightarrow> (Inl e, fs, [], sp')
         | None \<Rightarrow>
             (let (f, out) = write_tracks 0 tracks ([], [])
              in (Inr (), fs(file_path := Inr f), out, sp')))"

section \<open>Push\<close>

function set_playlist_tracks_loop ::
  "(string list \<Rightarrow> bool) \<Rightarrow> string list \<Rightarrow> string spotify \<Rightarrow> (error + unit) \<times> string spotify" where
  "set_playlist_tracks_loop accepts track_ids sp =
     (if length track_ids > 0 then
        (let chunk = py_slice_to track_ids chunk_size;
             track_ids' = py_slice_from track_ids chunk_size
         in case sp_playlist_add_items accepts chunk sp of
              (Inl e, sp') \<Rightarrow> (Inl e, sp')
            | (Inr u, sp') \<Rightarrow> set_playlist_tracks_loop accepts track_ids' sp')
      else (Inr (), sp))"
  by pat_completeness auto
termination
  by (relation "measure (\<lambda>(accepts, track_ids, sp). length track_ids)")
     (auto simp: chunk_size_def py_slice_from_def)

definition set_playlist_tracks ::
  "(string list \<Rightarrow> bool) \<Rightarrow> string list \<Rightarrow> string spotify \<Rightarrow> (error + unit) \<times> string spotify" where
  "set_playlist_tracks accepts track_ids sp =
     (let sp0 = sp_playlist sp;
          chunk = py_slice_to track_ids chunk_size;
          track_ids' = py_slice_from track_ids chunk_size
      in case sp_playlist_replace_items accepts chunk sp0 of
           (Inl e, sp') \<Rightarrow> (Inl e, sp')
         | (Inr u, sp') \<Rightarrow> set_playlist_tracks_loop accepts track_ids' sp')"

definition push_playlist_from_file ::
  "(string list \<Rightarrow> bool) \<Rightarrow> filesystem \<Rightarrow> string \<Rightarrow> string spotify
     \<Rightarrow> (error + unit) \<times> string spotify" where
  "push_playlist_from_file accepts fs file_path sp =
     (case fs file_path of
        Inl e \<Rightarrow> (Inl e, sp)
      | Inr content \<Rightarrow>
          (let tracks = readlines content;
               track_ids = map track_id_from_str tracks
           in set_playlist_tracks accepts track_ids sp))"

section \<open>Observations and sample data\<close>

definition calls_since :: "'a spotify \<Rightarrow> 'a spotify \<Rightarrow> api_call list" where
  \<comment> \<open>The calls logged between an earlier and a later state of the service.\<close>
  "calls_since sp sp' = drop (length (sp_calls sp)) (sp_calls sp')"

definition written_line :: "playlist_item \<Rightarrow> string" where
  \<comment> \<open>What one round of the writing loop adds to the file for an item.\<close>
  "written_line track =
     (case item_to_str track of Inr line \<Rightarrow> line | Inl e \<Rightarrow> ''INVALID TRACK'') @ [LF]"

definition reports_from :: "nat \<Rightarrow> playlist_item list \<Rightarrow> report list" where
  \<comment> \<open>One message for each position whose item does not encode, counted from \<open>i\<close>.\<close>
  "reports_from i tracks =
     map (\<lambda>k. SeemsInvalid (i + k) (tracks ! k))
       (filter (\<lambda>k. isl (item_to_str (tracks ! k))) [0..<length tracks])"

definition no_break :: "string \<Rightarrow> bool" where
  "no_break s = (LF \<notin> set s \<and> CR \<notin> set s)"

definition hey_jude :: track where
  "hey_jude = \<lparr>track_name = ''Hey Jude'',
     track_artists = [\<lparr>artist_name = ''The Beatles''\<rparr>, \<lparr>artist_name = ''Wings''\<rparr>],
     track_id = ''0aym2LBJBk9DAYuHHutrIl''\<rparr>"

definition short_id_track :: track where
  "short_id_track = \<lparr>track_name = ''Local file'', track_artists = [], track_id = ''abc''\<rparr>"

definition pipe_track :: track where
  "pipe_track = \<lparr>track_name = ''Song'', track_artists = [\<lparr>artist_name = ''x''\<rparr>],
     track_id = ''4uLU6hMCjMI|5M1A2tKUQC''\<rparr>"

definition two_line_title :: track where
  "two_line_title = \<lparr>track_name = ''Intro'' @ [LF] @ ''Outro'', track_artists = [],
     track_id = ''3n3Ppam7vgaVa1iaRUc9Lp''\<rparr>"

definition two_line_artist :: track where
  "two_line_artist = \<lparr>track_name = ''Duet'',
     track_artists = [\<lparr>artist_name = ''A'' @ [LF] @ ''B''\<rparr>],
     track_id = ''6rqhFgbbKwnb9MLmUQDhG6''\<rparr>"

definition no_files :: filesystem where
  "no_files = (\<lambda>path. Inl (FileNotFoundError path))"

definition old_playlist :: "string spotify" where
  "old_playlist =
     \<lparr>sp_calls = [], sp_items = [''7ouMYWpwJ422jRcDASZB7P'', ''2takcwOaAZWiXQijPHIx7B'']\<rparr>"

definition file_lines :: "filesystem \<Rightarrow> string \<Rightarrow> error + string list" where
  \<comment> \<open>The lines of a file as \<open>readlines\<close> returns them, or the error of opening it.\<close>
  "file_lines fs path = (case fs path of Inl e \<Rightarrow> Inl e | Inr content \<Rightarrow> Inr (readlines content))"

definition two_line_title_playlist :: "playlist_item spotify" where
  "two_line_title_playlist = \<lparr>sp_calls = [], sp_items = [\<lparr>item_track = Some two_line_title\<rparr>]\<rparr>"

definition two_line_artist_playlist :: "playlist_item spotify" where
  "two_line_artist_playlist = \<lparr>sp_calls = [], sp_items = [\<lparr>item_track = Some two_line_artist\<rparr>]\<rparr>"

definition mixed_playlist :: "playlist_item spotify" where
  "mixed_playlist = \<lparr>sp_calls = [],
     sp_items = [\<lparr>item_track = Some hey_jude\<rparr>, \<lparr>item_track = None\<rparr>,
                 \<lparr>item_track = Some short_id_track\<rparr>]\<rparr>"

definition many_ids :: "string list" where
  "many_ids = replicate 100 ''0aym2LBJBk9DAYuHHutrIl'' @ replicate 100 ''3n3Ppam7vgaVa1iaRUc9Lp''
              @ replicate 50 ''6rqhFgbbKwnb9MLmUQDhG6''"

definition pulled_files :: filesystem where
  \<comment> \<open>A file as a pull leaves it: one encoded track and one sentinel line.\<close>
  "pulled_files = no_files(''playlists/Mix.txt'' :=
     Inr (''Hey Jude                                           | The Beatles, Wings                       | 0aym2LBJBk9DAYuHHutrIl'' @ [LF] @ ''INVALID TRACK'' @ [LF]))"

definition all_writable :: write_access where
  "all_writable = (\<lambda>path. None)"

definition no_folder :: write_access where
  "no_folder = (\<lambda>path. Some (FileNotFoundError path))"

definition long_playlist :: "playlist_item spotify" where
  "long_playlist = \<lparr>sp_calls = [], sp_items = replicate 250 \<lparr>item_track = Some hey_jude\<rparr>\<rparr>"

definition long_pulled_lines :: "string list" where
  \<comment> \<open>150 lines of a pulled file, without their line ends; line 120 is the sentinel.\<close>
  "long_pulled_lines =
     replicate 120 ''Hey Jude                                           | The Beatles, Wings                       | 0aym2LBJBk9DAYuHHutrIl''
     @ [''INVALID TRACK'']
     @ replicate 29 ''Hey Jude                                           | The Beatles, Wings                       | 0aym2LBJBk9DAYuHHutrIl''"

definition long_pulled_files :: filesystem where
  "long_pulled_files = no_files(''playlists/Long.txt'' :=
     Inr (concat (map (\<lambda>l. l @ [LF]) long_pulled_lines)))"

definition rejects_sentinel :: "string list \<Rightarrow> bool" where
  \<comment> \<open>A service that refuses any chunk holding the sentinel.\<close>
  "rejects_sentinel chunk = (length chunk \<le> 100 \<and> ''INVALID TRACK'' \<notin> set chunk)"

declare get_playlist_tracks_loop.simps [simp del]
declare set_playlist_tracks_loop.simps [simp del]

section \<open>Properties of the string primitives\<close>

lemma py_split_nonempty: "py_split sep s \<noteq> []"
  by (induction s) (simp_all add: Let_def)

lemma py_split_no_sep: "sep \<notin> set s \<Longrightarrow> py_split sep s = [s]"
  by (induction s) (auto simp: Let_def)

lemma py_split_append:
  "py_split sep (xs @ sep # ys) = py_split sep xs @ py_split sep ys"
proof (induction xs)
  case Nil
  show ?case by (simp add: Let_def)
next
  case (Cons x xs)
  have ne: "py_split sep xs \<noteq> []" by (rule py_split_nonempty)
  show ?case
    using Cons ne by (cases "py_split sep xs") (simp_all add: Let_def)
qed

lemma last_py_split:
  "sep \<notin> set ys \<Longrightarrow> last (py_split sep (xs @ sep # ys)) = ys"
  by (simp add: py_split_append py_split_no_sep)

lemma strip_clean:
  assumes "s \<noteq> []" "\<not> py_isspace (hd s)" "\<not> py_isspace (last s)"
  shows "strip (CHR '' '' # s) = s"
proof -
  have sp: "py_isspace CHR '' ''" by (simp add: py_isspace_def)
  from assms have a: "dropWhile py_isspace s = s"
    by (cases s) simp_all
  from assms have b: "dropWhile py_isspace (rev s) = rev s"
    by (cases "rev s") (simp_all add: hd_rev)
  show ?thesis by (simp add: strip_def sp a b)
qed

lemma track_id_from_str_line:
  assumes "CHR ''|'' \<notin> set i" "i \<noteq> []" "\<not> py_isspace (hd i)" "\<not> py_isspace (last i)"
  shows "track_id_from_str (a @ '' | '' @ b @ '' | '' @ i) = i"
proof -
  have "a @ '' | '' @ b @ '' | '' @ i = (a @ '' | '' @ b @ '' '') @ CHR ''|'' # (CHR '' '' # i)"
    by simp
  moreover have "CHR ''|'' \<notin> set (CHR '' '' # i)" using assms(1) by simp
  ultimately have "last (py_split CHR ''|'' (a @ '' | '' @ b @ '' | '' @ i)) = CHR '' '' # i"
    using last_py_split by metis
  then show ?thesis using assms by (simp add: track_id_from_str_def strip_clean)
qed

lemma track_to_str_ok:
  "length (track_id t) = 22 \<Longrightarrow>
   track_to_str t = Inr (fit (track_name t) 50 @ '' | '' @
      fit (join '', '' (map artist_name (track_artists t))) 40 @ '' | '' @ track_id t)"
  by (simp add: track_to_str_def TITLE_WIDTH_def ARTIST_WIDTH_def ID_WIDTH_def)

lemma track_to_str_bad:
  "length (track_id t) \<noteq> 22 \<Longrightarrow>
   track_to_str t = Inl (AssertionError (''ID '' @ track_id t @ '' is not 22 characters long''))"
  by (simp add: track_to_str_def ID_WIDTH_def)

lemma fit_short: "int (length s) \<le> w \<Longrightarrow> fit s w = s @ replicate (nat w - length s) CHR '' ''"
  by (simp add: fit_def ljust_def nat_diff_distrib')

lemma fit_long:
  "3 \<le> w \<Longrightarrow> int (length s) > w \<Longrightarrow> fit s w = take (nat w - 3) s @ ''...''"
  by (simp add: fit_def py_slice_to_def nat_diff_distrib')

lemma length_fit: "3 \<le> w \<Longrightarrow> length (fit s w) = nat w"
  by (cases "int (length s) \<le> w") (auto simp: fit_short fit_long)

section \<open>Counting pages and chunks\<close>

lemma upt_0_Suc_shift: "[0..<Suc n] = 0 # map Suc [0..<n]"
  by (simp add: upt_conv_Cons map_Suc_upt del: upt_Suc)

lemma ceil_div_100_Suc:
  assumes "0 < (n::nat)"
  shows "(n + 99) div 100 = Suc ((n - 100 + 99) div 100)"
proof (cases "100 \<le> n")
  case True
  then obtain m where "n = m + 100" by (metis le_add_diff_inverse2)
  then show ?thesis by simp
next
  case False
  with assms have "(n + 99) div 100 = 1" by (intro div_nat_eqI) simp_all
  with False show ?thesis by simp
qed

lemma pages_needed:
  fixes total :: nat
  shows "(\<forall>k < (total + 99) div 100. 100 * k < total) \<and> total \<le> 100 * ((total + 99) div 100)"
proof
  show "\<forall>k < (total + 99) div 100. 100 * k < total"
  proof (intro allI impI)
    fix k assume "k < (total + 99) div 100"
    then have "Suc k \<le> (total + 99) div 100" by simp
    then have "100 * Suc k \<le> 100 * ((total + 99) div 100)" by (rule mult_le_mono2)
    also have "\<dots> \<le> total + 99" by (rule times_div_less_eq_dividend)
    finally show "100 * k < total" by simp
  qed
  have "total + 99 < 100 + 100 * ((total + 99) div 100)"
    by (rule dividend_less_times_div) simp
  then show "total \<le> 100 * ((total + 99) div 100)" by simp
qed


section \<open>Properties of the pull loops\<close>

lemma get_playlist_tracks_loop_done:
  "get_playlist_tracks_loop total_tracks offset tracks sp = (tracks, sp)" if "\<not> offset < total_tracks"
  using that by (subst get_playlist_tracks_loop.simps) simp

lemma get_playlist_tracks_loop_step:
  "offset < total_tracks \<Longrightarrow>
   get_playlist_tracks_loop total_tracks offset tracks sp =
     get_playlist_tracks_loop total_tracks (offset + 100)
       (tracks @ take 100 (drop (nat offset) (sp_items sp)))
       (sp\<lparr>sp_calls := sp_calls sp @ [PlaylistTracks 100 offset]\<rparr>)"
  by (subst get_playlist_tracks_loop.simps)
     (simp add: sp_playlist_tracks_def chunk_size_def)

lemma get_playlist_tracks_loop_faithful:
  assumes "0 \<le> offset"
  shows "get_playlist_tracks_loop (int (length (sp_items sp))) offset tracks sp =
           (tracks @ drop (nat offset) (sp_items sp),
            sp\<lparr>sp_calls := sp_calls sp @
               map (\<lambda>k. PlaylistTracks 100 (offset + 100 * int k))
                   [0..<(length (sp_items sp) - nat offset + 99) div 100]\<rparr>)"
  using assms
proof (induction "length (sp_items sp) - nat offset" arbitrary: offset tracks sp rule: less_induct)
  case less
  show ?case
  proof (cases "offset < int (length (sp_items sp))")
    case False
    then have "length (sp_items sp) - nat offset = 0" by simp
    with False show ?thesis by (simp add: get_playlist_tracks_loop_done)
  next
    case True
    let ?sp = "sp\<lparr>sp_calls := sp_calls sp @ [PlaylistTracks 100 offset]\<rparr>"
    from True less.prems have pos: "0 < length (sp_items sp) - nat offset" by simp
    have nat_off: "nat (offset + 100) = nat offset + 100" using less.prems by simp
    from True less.prems have smaller:
      "length (sp_items ?sp) - nat (offset + 100) < length (sp_items sp) - nat offset"
      by simp
    have "0 \<le> offset + 100" using less.prems by simp
    from less.hyps [OF smaller this, of "tracks @ take 100 (drop (nat offset) (sp_items sp))"]
    have IH: "get_playlist_tracks_loop (int (length (sp_items sp))) (offset + 100)
                (tracks @ take 100 (drop (nat offset) (sp_items sp))) ?sp =
              ((tracks @ take 100 (drop (nat offset) (sp_items sp))) @
                 drop (nat offset + 100) (sp_items sp),
               ?sp\<lparr>sp_calls := sp_calls ?sp @
                  map (\<lambda>k. PlaylistTracks 100 (offset + 100 + 100 * int k))
                      [0..<(length (sp_items sp) - (nat offset + 100) + 99) div 100]\<rparr>)"
      by (simp add: nat_off)
    have d: "take 100 (drop (nat offset) (sp_items sp)) @ drop (nat offset + 100) (sp_items sp)
              = drop (nat offset) (sp_items sp)"
      by (metis add.commute append_take_drop_id drop_drop)
    have n: "(length (sp_items sp) - nat offset + 99) div 100
               = Suc ((length (sp_items sp) - (nat offset + 100) + 99) div 100)"
      using ceil_div_100_Suc [OF pos] by (simp only: diff_diff_left)
    show ?thesis
      unfolding get_playlist_tracks_loop_step [OF True] IH n upt_0_Suc_shift
      by (simp add: d comp_def algebra_simps del: upt_Suc)
  qed
qed

lemma get_playlist_tracks_faithful:
  "get_playlist_tracks sp =
     (sp_items sp,
      sp\<lparr>sp_calls := sp_calls sp @ [PlaylistTracks 1 0, Playlist] @
         map (\<lambda>k. PlaylistTracks 100 (100 * int k))
             [0..<(length (sp_items sp) + 99) div 100]\<rparr>)"
proof -
  let ?sp = "sp\<lparr>sp_calls := sp_calls sp @ [PlaylistTracks 1 0, Playlist]\<rparr>"
  have "get_playlist_tracks sp =
          get_playlist_tracks_loop (int (length (sp_items ?sp))) 0 [] ?sp"
    by (simp add: get_playlist_tracks_def sp_playlist_tracks_def sp_playlist_def)
  also have "\<dots> = ([] @ drop (nat 0) (sp_items ?sp),
            ?sp\<lparr>sp_calls := sp_calls ?sp @
               map (\<lambda>k. PlaylistTracks 100 (0 + 100 * int k))
                   [0..<(length (sp_items ?sp) - nat 0 + 99) div 100]\<rparr>)"
    by (rule get_playlist_tracks_loop_faithful) simp
  finally show ?thesis by simp
qed

lemma reports_from_Cons:
  "reports_from i (t # ts) =
     (if isl (item_to_str t) then [SeemsInvalid i t] else []) @ reports_from (Suc i) ts"
  by (simp add: reports_from_def upt_0_Suc_shift filter_map comp_def del: upt_Suc)

lemma write_tracks_eq:
  "write_tracks i tracks (f, out) =
     (f @ concat (map written_line tracks), out @ reports_from i tracks)"
proof (induction tracks arbitrary: i f out)
  case Nil
  show ?case by (simp add: reports_from_def)
next
  case (Cons t ts)
  show ?case
    by (cases "item_to_str t") (simp_all add: Cons written_line_def reports_from_Cons)
qed

lemma readlines_from_line:
  "no_break l \<Longrightarrow>
   readlines_from False acc (l @ LF # rest) = (acc @ l @ [LF]) # readlines_from False [] rest"
  by (induction l arbitrary: acc) (auto simp: no_break_def)

lemma readlines_written:
  "\<forall>l \<in> set ls. no_break l \<Longrightarrow>
   readlines (concat (map (\<lambda>l. l @ [LF]) ls)) = map (\<lambda>l. l @ [LF]) ls"
  unfolding readlines_def
  by (induction ls) (simp_all add: readlines_from_line)

lemma no_break_written:
  assumes "\<forall>track \<in> set tracks. \<forall>line. item_to_str track = Inr line \<longrightarrow> no_break line"
  shows "readlines (concat (map written_line tracks)) = map written_line tracks"
proof -
  let ?body = "\<lambda>track. case item_to_str track of Inr line \<Rightarrow> line | Inl e \<Rightarrow> ''INVALID TRACK''"
  have w: "written_line = (\<lambda>track. ?body track @ [LF])"
    by (rule ext) (simp add: written_line_def)
  have "\<forall>l \<in> set (map ?body tracks). no_break l"
    using assms by (auto simp: no_break_def split: sum.splits)
  from readlines_written [OF this] show ?thesis
    by (simp add: w comp_def)
qed

lemma pull_playlist_to_file_written:
  "open_w file_path = None \<Longrightarrow>
   pull_playlist_to_file sp open_w fs file_path =
     (Inr (), fs(file_path := Inr (concat (map written_line (sp_items sp)))),
      reports_from 0 (sp_items sp),
      snd (get_playlist_tracks sp))"
  by (simp add: pull_playlist_to_file_def get_playlist_tracks_faithful write_tracks_eq)

lemma pull_playlist_to_file_refused:
  "open_w file_path = Some e \<Longrightarrow>
   pull_playlist_to_file sp open_w fs file_path = (Inl e, fs, [], snd (get_playlist_tracks sp))"
  by (simp add: pull_playlist_to_file_def get_playlist_tracks_faithful)

lemma pull_playlist_to_file_calls:
  "snd (snd (snd (pull_playlist_to_file sp open_w fs file_path))) = snd (get_playlist_tracks sp)"
  by (cases "open_w file_path")
     (simp_all add: pull_playlist_to_file_written pull_playlist_to_file_refused)

lemma upt_3: "[0..<3] = [0, 1, 2::nat]"
  by (simp add: upt_conv_Cons)

lemma calls_since_append: "sp_calls sp' = sp_calls sp @ new \<Longrightarrow> calls_since sp sp' = new"
  by (simp add: calls_since_def)

lemma reports_from_mem:
  "i < length tracks \<Longrightarrow> isl (item_to_str (tracks ! i)) \<Longrightarrow>
   SeemsInvalid i (tracks ! i) \<in> set (reports_from 0 tracks)"
  by (auto simp: reports_from_def)

lemma written_line_invalid:
  "isl (item_to_str track) \<Longrightarrow> written_line track = ''INVALID TRACK'' @ [LF]"
  by (cases "item_to_str track") (simp_all add: written_line_def)

section \<open>Properties of the push loops\<close>

lemma slice_chunk [simp]:
  "py_slice_to xs chunk_size = take 100 xs" "py_slice_from xs chunk_size = drop 100 xs"
  by (simp_all add: py_slice_to_def py_slice_from_def chunk_size_def)

lemma set_playlist_tracks_loop_Nil:
  "set_playlist_tracks_loop accepts [] sp = (Inr (), sp)"
  by (subst set_playlist_tracks_loop.simps) simp

lemma set_playlist_tracks_loop_step:
  "track_ids \<noteq> [] \<Longrightarrow>
   set_playlist_tracks_loop accepts track_ids sp =
     (if accepts (take 100 track_ids)
      then set_playlist_tracks_loop accepts (drop 100 track_ids)
             (sp\<lparr>sp_calls := sp_calls sp @ [PlaylistAddItems (take 100 track_ids)],
                 sp_items := sp_items sp @ take 100 track_ids\<rparr>)
      else (Inl (ApiError ''playlist_add_items''),
            sp\<lparr>sp_calls := sp_calls sp @ [PlaylistAddItems (take 100 track_ids)]\<rparr>))"
  by (subst set_playlist_tracks_loop.simps) (simp add: sp_playlist_add_items_def Let_def)

lemma set_playlist_tracks_loop_done:
  "set_playlist_tracks_loop accepts track_ids sp = (Inr (), sp') \<Longrightarrow>
   sp_items sp' = sp_items sp @ track_ids
   \<and> sp_calls sp' = sp_calls sp @
         map (\<lambda>k. PlaylistAddItems (take 100 (drop (100 * k) track_ids)))
             [0..<(length track_ids + 99) div 100]"
proof (induction "length track_ids" arbitrary: track_ids sp rule: less_induct)
  case less
  show ?case
  proof (cases "track_ids = []")
    case True
    with less.prems show ?thesis by (simp add: set_playlist_tracks_loop_Nil)
  next
    case False
    define sp1 where "sp1 = sp\<lparr>sp_calls := sp_calls sp @ [PlaylistAddItems (take 100 track_ids)],
       sp_items := sp_items sp @ take 100 track_ids\<rparr>"
    from False less.prems have rest:
      "set_playlist_tracks_loop accepts (drop 100 track_ids) sp1 = (Inr (), sp')"
      by (simp add: set_playlist_tracks_loop_step sp1_def split: if_splits)
    from False have shorter: "length (drop 100 track_ids) < length track_ids" by simp
    have n: "(length track_ids + 99) div 100 = Suc ((length (drop 100 track_ids) + 99) div 100)"
      using False ceil_div_100_Suc [of "length track_ids"] by simp
    from less.hyps [OF shorter rest]
    show ?thesis
      unfolding n upt_0_Suc_shift
      by (simp add: sp1_def comp_def add.commute del: upt_Suc)
  qed
qed

lemma sent_ids_append [simp]: "sent_ids (xs @ ys) = sent_ids xs @ sent_ids ys"
  by (simp add: sent_ids_def)

lemma sent_ids_simps [simp]:
  "sent_ids [] = []"
  "sent_ids (Playlist # calls) = sent_ids calls"
  "sent_ids (PlaylistTracks limit offset # calls) = sent_ids calls"
  "sent_ids (PlaylistReplaceItems chunk # calls) = chunk @ sent_ids calls"
  "sent_ids (PlaylistAddItems chunk # calls) = chunk @ sent_ids calls"
  by (simp_all add: sent_ids_def)

lemma set_playlist_tracks_loop_sent:
  "set_playlist_tracks_loop accepts track_ids sp = (Inr (), sp') \<Longrightarrow>
   sent_ids (sp_calls sp') = sent_ids (sp_calls sp) @ track_ids"
proof (induction "length track_ids" arbitrary: track_ids sp rule: less_induct)
  case less
  show ?case
  proof (cases "track_ids = []")
    case True
    with less.prems show ?thesis by (simp add: set_playlist_tracks_loop_Nil)
  next
    case False
    define sp1 where "sp1 = sp\<lparr>sp_calls := sp_calls sp @ [PlaylistAddItems (take 100 track_ids)],
       sp_items := sp_items sp @ take 100 track_ids\<rparr>"
    from False less.prems have rest:
      "set_playlist_tracks_loop accepts (drop 100 track_ids) sp1 = (Inr (), sp')"
      by (simp add: set_playlist_tracks_loop_step sp1_def split: if_splits)
    from False have shorter: "length (drop 100 track_ids) < length track_ids" by simp
    from less.hyps [OF shorter rest] show ?thesis
      by (simp add: sp1_def)
  qed
qed

lemma set_playlist_tracks_loop_accepted:
  "(\<forall>chunk. length chunk \<le> 100 \<longrightarrow> accepts chunk) \<Longrightarrow>
   fst (set_playlist_tracks_loop accepts track_ids sp) = Inr ()"
proof (induction "length track_ids" arbitrary: track_ids sp rule: less_induct)
  case less
  show ?case
  proof (cases "track_ids = []")
    case True
    then show ?thesis by (simp add: set_playlist_tracks_loop_Nil)
  next
    case False
    then have shorter: "length (drop 100 track_ids) < length track_ids" by simp
    from less.prems have "accepts (take 100 track_ids)" by simp
    with False less.hyps [OF shorter less.prems] show ?thesis
      by (simp add: set_playlist_tracks_loop_step)
  qed
qed

lemma set_playlist_tracks_unfold:
  "set_playlist_tracks accepts track_ids sp =
     (if accepts (take 100 track_ids)
      then set_playlist_tracks_loop accepts (drop 100 track_ids)
             (sp\<lparr>sp_calls := sp_calls sp @ [Playlist, PlaylistReplaceItems (take 100 track_ids)],
                 sp_items := take 100 track_ids\<rparr>)
      else (Inl (ApiError ''playlist_replace_items''),
            sp\<lparr>sp_calls := sp_calls sp @ [Playlist, PlaylistReplaceItems (take 100 track_ids)]\<rparr>))"
  by (simp add: set_playlist_tracks_def sp_playlist_replace_items_def sp_playlist_def Let_def)

lemma set_playlist_tracks_done:
  assumes "set_playlist_tracks accepts track_ids sp = (Inr (), sp')"
  shows "sp_items sp' = track_ids"
    and "calls_since sp sp' = Playlist # PlaylistReplaceItems (take 100 track_ids) #
         map (\<lambda>k. PlaylistAddItems (take 100 (drop (100 * (k + 1)) track_ids)))
             [0..<(length track_ids - 100 + 99) div 100]"
    and "sent_ids (calls_since sp sp') = track_ids"
proof -
  let ?sp = "sp\<lparr>sp_calls := sp_calls sp @ [Playlist, PlaylistReplaceItems (take 100 track_ids)],
                 sp_items := take 100 track_ids\<rparr>"
  from assms have loop: "set_playlist_tracks_loop accepts (drop 100 track_ids) ?sp = (Inr (), sp')"
    by (simp add: set_playlist_tracks_unfold split: if_splits)
  from set_playlist_tracks_loop_done [OF loop] show "sp_items sp' = track_ids"
    by simp
  from set_playlist_tracks_loop_done [OF loop]
  have calls: "sp_calls sp' = sp_calls sp @ Playlist # PlaylistReplaceItems (take 100 track_ids) #
         map (\<lambda>k. PlaylistAddItems (take 100 (drop (100 * (k + 1)) track_ids)))
             [0..<(length track_ids - 100 + 99) div 100]"
    by (simp add: add.commute)
  then show c: "calls_since sp sp' = Playlist # PlaylistReplaceItems (take 100 track_ids) #
         map (\<lambda>k. PlaylistAddItems (take 100 (drop (100 * (k + 1)) track_ids)))
             [0..<(length track_ids - 100 + 99) div 100]"
    by (rule calls_since_append)
  from calls c have "sp_calls sp' = sp_calls sp @ calls_since sp sp'" by simp
  then have "sent_ids (sp_calls sp') = sent_ids (sp_calls sp) @ sent_ids (calls_since sp sp')"
    by (simp only: sent_ids_append)
  with set_playlist_tracks_loop_sent [OF loop]
  show "sent_ids (calls_since sp sp') = track_ids" by simp
qed

lemma set_playlist_tracks_accepted:
  "(\<forall>chunk. length chunk \<le> 100 \<longrightarrow> accepts chunk) \<Longrightarrow>
   fst (set_playlist_tracks accepts track_ids sp) = Inr ()"
  by (simp add: set_playlist_tracks_unfold set_playlist_tracks_loop_accepted)

lemma set_playlist_tracks_loop_prefix:
  "\<forall>j<m. accepts (take 100 (drop (100 * j) track_ids)) \<Longrightarrow>
   \<exists>new rest. sp_calls (snd (set_playlist_tracks_loop accepts track_ids sp)) = sp_calls sp @ new
      \<and> sent_ids new = take (100 * Suc m) track_ids @ rest"
proof (induction "length track_ids" arbitrary: track_ids sp m rule: less_induct)
  case less
  show ?case
  proof (cases "track_ids = []")
    case True
    then show ?thesis by (simp add: set_playlist_tracks_loop_Nil)
  next
    case False
    let ?chunk = "take 100 track_ids"
    let ?sp1 = "sp\<lparr>sp_calls := sp_calls sp @ [PlaylistAddItems ?chunk],
                   sp_items := sp_items sp @ ?chunk\<rparr>"
    from False have shorter: "length (drop 100 track_ids) < length track_ids" by simp
    show ?thesis
    proof (cases "accepts ?chunk")
      case refused: False
      have "m = 0"
      proof (rule ccontr)
        assume "m \<noteq> 0"
        with less.prems have "accepts (take 100 (drop (100 * 0) track_ids))" by blast
        with refused show False by simp
      qed
      with False refused show ?thesis
        by (simp add: set_playlist_tracks_loop_step)
    next
      case accepted: True
      with False have step: "set_playlist_tracks_loop accepts track_ids sp
                               = set_playlist_tracks_loop accepts (drop 100 track_ids) ?sp1"
        by (simp add: set_playlist_tracks_loop_step)
      have later: "\<forall>j<m - 1. accepts (take 100 (drop (100 * j) (drop 100 track_ids)))"
      proof (intro allI impI)
        fix j assume "j < m - 1"
        then have "Suc j < m" by simp
        with less.prems have "accepts (take 100 (drop (100 * Suc j) track_ids))" by blast
        then show "accepts (take 100 (drop (100 * j) (drop 100 track_ids)))"
          by (simp add: add.commute)
      qed
      from less.hyps [OF shorter later, of ?sp1] obtain new1 rest1 where
        calls: "sp_calls (snd (set_playlist_tracks_loop accepts (drop 100 track_ids) ?sp1))
                  = sp_calls ?sp1 @ new1"
        and sent: "sent_ids new1 = take (100 * Suc (m - 1)) (drop 100 track_ids) @ rest1"
        by blast
      have split: "take (100 + k) track_ids = ?chunk @ take k (drop 100 track_ids)" for k
        by (rule take_add)
      show ?thesis
      proof (cases m)
        case 0
        with calls sent show ?thesis
          unfolding step
          by (intro exI [of _ "PlaylistAddItems ?chunk # new1"]
                    exI [of _ "take 100 (drop 100 track_ids) @ rest1"]) simp
      next
        case (Suc m')
        with calls sent split [of "100 * Suc m'"] show ?thesis
          unfolding step
          by (intro exI [of _ "PlaylistAddItems ?chunk # new1"] exI [of _ rest1]) simp
      qed
    qed
  qed
qed

lemma set_playlist_tracks_prefix:
  assumes "\<forall>j<m. accepts (take 100 (drop (100 * j) track_ids))"
  shows "\<exists>rest. sent_ids (calls_since sp (snd (set_playlist_tracks accepts track_ids sp)))
            = take (100 * Suc m) track_ids @ rest"
proof (cases "accepts (take 100 track_ids)")
  case refused: False
  have "m = 0"
  proof (rule ccontr)
    assume "m \<noteq> 0"
    with assms have "accepts (take 100 (drop (100 * 0) track_ids))" by blast
    with refused show False by simp
  qed
  with refused show ?thesis
    by (simp add: set_playlist_tracks_unfold calls_since_def)
next
  case accepted: True
  let ?chunk = "take 100 track_ids"
  let ?sp0 = "sp\<lparr>sp_calls := sp_calls sp @ [Playlist, PlaylistReplaceItems ?chunk],
                 sp_items := ?chunk\<rparr>"
  from accepted have step: "set_playlist_tracks accepts track_ids sp
                      = set_playlist_tracks_loop accepts (drop 100 track_ids) ?sp0"
    by (simp add: set_playlist_tracks_unfold)
  have later: "\<forall>j<m - 1. accepts (take 100 (drop (100 * j) (drop 100 track_ids)))"
  proof (intro allI impI)
    fix j assume "j < m - 1"
    then have "Suc j < m" by simp
    with assms have "accepts (take 100 (drop (100 * Suc j) track_ids))" by blast
    then show "accepts (take 100 (drop (100 * j) (drop 100 track_ids)))"
      by (simp add: add.commute)
  qed
  from set_playlist_tracks_loop_prefix [OF later, of ?sp0] obtain new1 rest1 where
    calls: "sp_calls (snd (set_playlist_tracks_loop accepts (drop 100 track_ids) ?sp0))
              = sp_calls ?sp0 @ new1"
    and sent: "sent_ids new1 = take (100 * Suc (m - 1)) (drop 100 track_ids) @ rest1"
    by blast
  from calls have since: "calls_since sp (snd (set_playlist_tracks accepts track_ids sp))
                    = Playlist # PlaylistReplaceItems ?chunk # new1"
    unfolding step by (simp add: calls_since_def)
  have split: "take (100 + k) track_ids = ?chunk @ take k (drop 100 track_ids)" for k
    by (rule take_add)
  show ?thesis
  proof (cases m)
    case 0
    with sent show ?thesis
      unfolding since by (intro exI [of _ "take 100 (drop 100 track_ids) @ rest1"]) simp
  next
    case (Suc m')
    with sent split [of "100 * Suc m'"] show ?thesis
      unfolding since by (intro exI [of _ rest1]) simp
  qed
qed

lemma sent_prefix_upto:
  assumes "sent = take k ids @ rest" and "Suc i \<le> k" and "i < length ids"
  shows "i < length sent"
    and "take (Suc i) sent = take (Suc i) ids"
    and "sent ! i = ids ! i"
proof -
  from assms(2,3) have inside: "i < length (take k ids)" by simp
  then show "i < length sent" unfolding assms(1) length_append by (rule trans_less_add1)
  from inside have "take (Suc i) sent = take (Suc i) (take k ids)"
    unfolding assms(1) by simp
  also from assms(2) have "\<dots> = take (Suc i) ids" by (simp add: min_absorb1)
  finally show "take (Suc i) sent = take (Suc i) ids" .
  from inside have "sent ! i = take k ids ! i"
    unfolding assms(1) by (simp add: nth_append)
  also from assms(2) have "\<dots> = ids ! i" by simp
  finally show "sent ! i = ids ! i" .
qed

lemma set_playlist_tracks_many_ids:
  "set_playlist_tracks max_chunk many_ids old_playlist =
     (Inr (), \<lparr>sp_calls = [Playlist,
                  PlaylistReplaceItems (replicate 100 ''0aym2LBJBk9DAYuHHutrIl''),
                  PlaylistAddItems (replicate 100 ''3n3Ppam7vgaVa1iaRUc9Lp''),
                  PlaylistAddItems (replicate 50 ''6rqhFgbbKwnb9MLmUQDhG6'')],
               sp_items = many_ids\<rparr>)"
  by (simp add: many_ids_def old_playlist_def max_chunk_def set_playlist_tracks_unfold
        set_playlist_tracks_loop_step set_playlist_tracks_loop_Nil)


lemma track_id_from_str_sentinel:
  "track_id_from_str ''INVALID TRACK'' = ''INVALID TRACK''"
  "track_id_from_str (''INVALID TRACK'' @ [LF]) = ''INVALID TRACK''"
  by (simp_all add: track_id_from_str_def strip_def py_isspace_def Let_def)

section \<open>Column fitting\<close>

text \<open>
  C5. For each of the three column widths 50, 40 and 22: a string no longer than the width
  comes back padded with spaces on the right to exactly the width; a longer string comes back
  as its first \<open>w - 3\<close> characters followed by three dots, again exactly \<open>w\<close> long.
\<close>

theorem fit_columns:
  assumes "w \<in> {TITLE_WIDTH, ARTIST_WIDTH, ID_WIDTH}"
  shows "(int (length s) \<le> w \<longrightarrow>
            fit s w = s @ replicate (nat w - length s) CHR '' '' \<and> int (length (fit s w)) = w)
       \<and> (int (length s) > w \<longrightarrow>
            fit s w = take (nat w - 3) s @ ''...'' \<and> int (length (fit s w)) = w)"
proof -
  from assms have w3: "3 \<le> w"
    by (auto simp: TITLE_WIDTH_def ARTIST_WIDTH_def ID_WIDTH_def)
  then have "int (length (fit s w)) = w"
    by (simp add: length_fit)
  with w3 show ?thesis
    by (simp add: fit_short fit_long)
qed

theorem fit_columns_witness:
  "22 \<in> {TITLE_WIDTH, ARTIST_WIDTH, ID_WIDTH}
   \<and> fit ''Hey Jude'' 22 = ''Hey Jude              ''
   \<and> fit ''The Rime of the Ancient Mariner'' 22 = ''The Rime of the Anc...''"
  using fit_columns [of 22 "''Hey Jude''"] fit_columns [of 22 "''The Rime of the Ancient Mariner''"]
  by (simp add: TITLE_WIDTH_def ARTIST_WIDTH_def ID_WIDTH_def eval_nat_numeral)

section \<open>The identifier check of the encoder\<close>

text \<open>
  C6. For a track with a string title, artists with string names and a string identifier,
  \<open>track_to_str\<close> fails exactly when the identifier is not 22 characters long, and the failure
  is then the assertion error naming the identifier; with a 22-character identifier it returns
  a line.
\<close>

theorem track_to_str_raises_iff:
  "((\<exists>e. track_to_str t = Inl e) \<longleftrightarrow> length (track_id t) \<noteq> 22)
   \<and> (length (track_id t) \<noteq> 22 \<longrightarrow>
        track_to_str t = Inl (AssertionError (''ID '' @ track_id t @ '' is not 22 characters long'')))
   \<and> (length (track_id t) = 22 \<longrightarrow> (\<exists>line. track_to_str t = Inr line))"
  by (cases "length (track_id t) = 22") (simp_all add: track_to_str_ok track_to_str_bad)

theorem track_to_str_raises_iff_witness:
  "length (track_id hey_jude) = 22
   \<and> track_to_str hey_jude = Inr ''Hey Jude                                           | The Beatles, Wings                       | 0aym2LBJBk9DAYuHHutrIl''
   \<and> length (track_id short_id_track) \<noteq> 22
   \<and> track_to_str short_id_track = Inl (AssertionError ''ID abc is not 22 characters long'')"
  using track_to_str_raises_iff [of hey_jude] track_to_str_raises_iff [of short_id_track]
  by (simp add: hey_jude_def short_id_track_def track_to_str_def fit_def ljust_def
        TITLE_WIDTH_def ARTIST_WIDTH_def ID_WIDTH_def eval_nat_numeral)

section \<open>Decoding an encoded line\<close>

text \<open>
  C2, as stated, fails: a 22-character identifier that contains the column separator is cut
  at its last separator when the line is decoded. The track \<open>pipe_track\<close> has the identifier
  \<open>4uLU6hMCjMI|5M1A2tKUQC\<close>; its line decodes to \<open>5M1A2tKUQC\<close>.
\<close>

theorem decode_pipe_id_counterexample:
  "length (track_id pipe_track) = 22
   \<and> track_to_str pipe_track = Inr ''Song                                               | x                                        | 4uLU6hMCjMI|5M1A2tKUQC''
   \<and> track_id_from_str ''Song                                               | x                                        | 4uLU6hMCjMI|5M1A2tKUQC'' = ''5M1A2tKUQC''
   \<and> track_id pipe_track = ''4uLU6hMCjMI|5M1A2tKUQC''"
  by (simp add: pipe_track_def track_to_str_def fit_def ljust_def
        TITLE_WIDTH_def ARTIST_WIDTH_def ID_WIDTH_def eval_nat_numeral
        track_id_from_str_def strip_def py_isspace_def Let_def)

text \<open>
  C2, amended. For every track whose identifier is exactly 22 characters long, contains no
  \<open>|\<close> and neither begins nor ends with a whitespace character, the track encodes to a line
  and decoding that line returns the identifier.
\<close>

theorem decode_encode_id:
  assumes "length (track_id t) = 22"
    and "CHR ''|'' \<notin> set (track_id t)"
    and "\<not> py_isspace (hd (track_id t))"
    and "\<not> py_isspace (last (track_id t))"
  shows "\<exists>line. track_to_str t = Inr line \<and> track_id_from_str line = track_id t"
proof -
  from assms(1) have ne: "track_id t \<noteq> []" by auto
  from assms(2) ne assms(3,4) have
    "track_id_from_str (fit (track_name t) 50 @ '' | '' @
       fit (join '', '' (map artist_name (track_artists t))) 40 @ '' | '' @ track_id t)
     = track_id t"
    by (rule track_id_from_str_line)
  with track_to_str_ok [OF assms(1)] show ?thesis by blast
qed

theorem decode_encode_id_witness:
  "length (track_id hey_jude) = 22
   \<and> CHR ''|'' \<notin> set (track_id hey_jude)
   \<and> \<not> py_isspace (hd (track_id hey_jude))
   \<and> \<not> py_isspace (last (track_id hey_jude))
   \<and> (\<exists>line. track_to_str hey_jude = Inr line \<and> track_id_from_str line = ''0aym2LBJBk9DAYuHHutrIl'')"
proof -
  have h: "length (track_id hey_jude) = 22" "CHR ''|'' \<notin> set (track_id hey_jude)"
    "\<not> py_isspace (hd (track_id hey_jude))" "\<not> py_isspace (last (track_id hey_jude))"
    by (simp_all add: hey_jude_def py_isspace_def)
  have "track_id hey_jude = ''0aym2LBJBk9DAYuHHutrIl''" by (simp add: hey_jude_def)
  with decode_encode_id [OF h] h show ?thesis by simp
qed

section \<open>Paginated fetch\<close>

text \<open>
  C3, as stated, fails in its last part: a title or an artist name may contain a line break,
  and the encoder copies it into the file. The playlist \<open>two_line_artist_playlist\<close> reports a
  total of one track, the pull completes, and the file pulled from it has two lines.
\<close>

theorem pull_two_line_artist_counterexample:
  "total (fst (sp_playlist_tracks 1 0 two_line_artist_playlist)) = 1
   \<and> fst (pull_playlist_to_file two_line_artist_playlist all_writable no_files
            ''playlists/Mix.txt'') = Inr ()
   \<and> file_lines
        (fst (snd (pull_playlist_to_file two_line_artist_playlist all_writable no_files
                     ''playlists/Mix.txt'')))
        ''playlists/Mix.txt''
     = Inr [''Duet                                               | A'' @ [LF], ''B                                      | 6rqhFgbbKwnb9MLmUQDhG6'' @ [LF]]"
proof -
  let ?item = "\<lparr>item_track = Some two_line_artist\<rparr>"
  let ?text = "''Duet                                               | A'' @ [LF] @ ''B                                      | 6rqhFgbbKwnb9MLmUQDhG6'' @ [LF]"
  have w: "all_writable ''playlists/Mix.txt'' = None"
    by (simp add: all_writable_def)
  have tracks: "sp_items two_line_artist_playlist = [?item]"
    by (simp add: two_line_artist_playlist_def)
  have enc: "item_to_str ?item = Inr (''Duet                                               | A'' @ [LF] @ ''B                                      | 6rqhFgbbKwnb9MLmUQDhG6'')"
    by (simp add: item_to_str_def two_line_artist_def track_to_str_def fit_def ljust_def
          TITLE_WIDTH_def ARTIST_WIDTH_def ID_WIDTH_def eval_nat_numeral)
  have content: "concat (map written_line [?item]) = ?text"
    by (simp add: written_line_def enc)
  have rl: "readlines ?text = [''Duet                                               | A'' @ [LF], ''B                                      | 6rqhFgbbKwnb9MLmUQDhG6'' @ [LF]]"
    by (simp add: readlines_def)
  have "file_lines
          (fst (snd (pull_playlist_to_file two_line_artist_playlist all_writable no_files
                       ''playlists/Mix.txt'')))
          ''playlists/Mix.txt''
        = Inr (readlines (concat (map written_line (sp_items two_line_artist_playlist))))"
    by (simp add: pull_playlist_to_file_written w file_lines_def)
  then have lines:
    "file_lines
          (fst (snd (pull_playlist_to_file two_line_artist_playlist all_writable no_files
                       ''playlists/Mix.txt'')))
          ''playlists/Mix.txt''
        = Inr [''Duet                                               | A'' @ [LF], ''B                                      | 6rqhFgbbKwnb9MLmUQDhG6'' @ [LF]]"
    by (simp only: tracks content rl)
  have total: "total (fst (sp_playlist_tracks 1 0 two_line_artist_playlist)) = 1"
    by (simp add: sp_playlist_tracks_def tracks)
  have res: "fst (pull_playlist_to_file two_line_artist_playlist all_writable no_files
            ''playlists/Mix.txt'') = Inr ()"
    by (simp add: pull_playlist_to_file_written w)
  from total res lines show ?thesis by (intro conjI)
qed

text \<open>
  C3, amended. For a playlist of \<open>total\<close> tracks, a pull issues the size probe, the name
  lookup and then page requests of size 100 at the offsets 0, 100, 200, ..., one for each
  offset below \<open>total\<close>, so that the pages cover the playlist and the tracks fetched are
  exactly the playlist. When the file opens for writing, the pull completes and writes one
  entry per track in playlist order; and provided no line that a track encodes to contains a
  line break (\<open>\n\<close> or \<open>\r\<close>), the file written has exactly \<open>total\<close> lines. When opening
  the file raises, the pull ends with that error after the page requests and leaves the files
  as they were.
\<close>

theorem pull_pages_and_lines:
  assumes "pull_playlist_to_file sp open_w fs file_path = (res, fs', out, sp')"
  shows "calls_since sp sp' =
           [PlaylistTracks 1 0, Playlist] @
           map (\<lambda>k. PlaylistTracks 100 (100 * int k)) [0..<(length (sp_items sp) + 99) div 100]
       \<and> (\<forall>k < (length (sp_items sp) + 99) div 100. 100 * k < length (sp_items sp))
       \<and> length (sp_items sp) \<le> 100 * ((length (sp_items sp) + 99) div 100)
       \<and> fst (get_playlist_tracks sp) = sp_items sp
       \<and> (open_w file_path = None \<longrightarrow>
            res = Inr ()
            \<and> fs' file_path = Inr (concat (map written_line (sp_items sp)))
            \<and> ((\<forall>track \<in> set (sp_items sp).
                   \<forall>line. item_to_str track = Inr line \<longrightarrow> no_break line) \<longrightarrow>
                 file_lines fs' file_path = Inr (map written_line (sp_items sp))
                 \<and> map_sum id length (file_lines fs' file_path) = Inr (length (sp_items sp))))
       \<and> (\<forall>e. open_w file_path = Some e \<longrightarrow> res = Inl e \<and> fs' = fs \<and> out = [])"
proof -
  from assms have sp': "sp' = snd (get_playlist_tracks sp)"
    using pull_playlist_to_file_calls [of sp open_w fs file_path] by simp
  have calls: "calls_since sp sp' =
           [PlaylistTracks 1 0, Playlist] @
           map (\<lambda>k. PlaylistTracks 100 (100 * int k)) [0..<(length (sp_items sp) + 99) div 100]"
    by (rule calls_since_append) (simp add: sp' get_playlist_tracks_faithful)
  have fetched: "fst (get_playlist_tracks sp) = sp_items sp"
    by (simp add: get_playlist_tracks_faithful)
  have written: "res = Inr () \<and> fs' file_path = Inr (concat (map written_line (sp_items sp)))"
    if "open_w file_path = None"
    using assms by (auto simp: pull_playlist_to_file_written that)
  have lines: "file_lines fs' file_path = Inr (map written_line (sp_items sp))"
    if "open_w file_path = None"
      and "\<forall>track \<in> set (sp_items sp). \<forall>line. item_to_str track = Inr line \<longrightarrow> no_break line"
    using written [OF that(1)] by (simp add: file_lines_def no_break_written [OF that(2)])
  have refused: "res = Inl e \<and> fs' = fs \<and> out = []" if "open_w file_path = Some e" for e
    using assms by (auto simp: pull_playlist_to_file_refused that)
  from calls pages_needed [of "length (sp_items sp)"] fetched written lines refused
  show ?thesis by simp
qed

theorem pull_pages_and_lines_witness:
  "all_writable ''playlists/Long.txt'' = None
   \<and> no_break ''Hey Jude                                           | The Beatles, Wings                       | 0aym2LBJBk9DAYuHHutrIl''
   \<and> length (sp_items long_playlist) = 250
   \<and> fst (pull_playlist_to_file long_playlist all_writable no_files ''playlists/Long.txt'')
       = Inr ()
   \<and> calls_since long_playlist
        (snd (snd (snd (pull_playlist_to_file long_playlist all_writable no_files
                          ''playlists/Long.txt''))))
       = [PlaylistTracks 1 0, Playlist,
          PlaylistTracks 100 0, PlaylistTracks 100 100, PlaylistTracks 100 200]
   \<and> file_lines
        (fst (snd (pull_playlist_to_file long_playlist all_writable no_files
                     ''playlists/Long.txt'')))
        ''playlists/Long.txt''
       = Inr (replicate 250 (''Hey Jude                                           | The Beatles, Wings                       | 0aym2LBJBk9DAYuHHutrIl'' @ [LF]))
   \<and> no_folder ''playlists/Long.txt'' = Some (FileNotFoundError ''playlists/Long.txt'')
   \<and> fst (pull_playlist_to_file long_playlist no_folder no_files ''playlists/Long.txt'')
       = Inl (FileNotFoundError ''playlists/Long.txt'')
   \<and> fst (snd (pull_playlist_to_file long_playlist no_folder no_files ''playlists/Long.txt''))
       = no_files"
proof -
  obtain res fs' out sp' where
    p: "pull_playlist_to_file long_playlist all_writable no_files ''playlists/Long.txt''
          = (res, fs', out, sp')"
    by (metis prod.collapse)
  obtain res2 fs2 out2 sp2 where
    q: "pull_playlist_to_file long_playlist no_folder no_files ''playlists/Long.txt''
          = (res2, fs2, out2, sp2)"
    by (metis prod.collapse)
  have w: "all_writable ''playlists/Long.txt'' = None"
    by (simp add: all_writable_def)
  have nf: "no_folder ''playlists/Long.txt'' = Some (FileNotFoundError ''playlists/Long.txt'')"
    by (simp add: no_folder_def)
  have enc: "item_to_str \<lparr>item_track = Some hey_jude\<rparr> = Inr ''Hey Jude                                           | The Beatles, Wings                       | 0aym2LBJBk9DAYuHHutrIl''"
    by (simp add: item_to_str_def hey_jude_def track_to_str_def fit_def
          ljust_def TITLE_WIDTH_def ARTIST_WIDTH_def ID_WIDTH_def eval_nat_numeral)
  have nb: "no_break ''Hey Jude                                           | The Beatles, Wings                       | 0aym2LBJBk9DAYuHHutrIl''"
    by (simp add: no_break_def)
  have items: "sp_items long_playlist = replicate 250 \<lparr>item_track = Some hey_jude\<rparr>"
    by (simp add: long_playlist_def)
  have h: "\<forall>track \<in> set (sp_items long_playlist).
             \<forall>line. item_to_str track = Inr line \<longrightarrow> no_break line"
    unfolding items using nb by (simp add: enc)
  have n: "(length (sp_items long_playlist) + 99) div 100 = 3"
    by (simp add: items)
  have wl: "map written_line (sp_items long_playlist) = replicate 250 (''Hey Jude                                           | The Beatles, Wings                       | 0aym2LBJBk9DAYuHHutrIl'' @ [LF])"
    unfolding items by (simp add: written_line_def enc)
  from pull_pages_and_lines [OF p] w h
  have r1: "res = Inr ()"
    and r2: "calls_since long_playlist sp' =
           [PlaylistTracks 1 0, Playlist] @ map (\<lambda>k. PlaylistTracks 100 (100 * int k)) [0..<3]"
    and r3: "file_lines fs' ''playlists/Long.txt'' = Inr (map written_line (sp_items long_playlist))"
    unfolding n by blast+
  from r2 have r2': "calls_since long_playlist sp' =
       [PlaylistTracks 1 0, Playlist,
        PlaylistTracks 100 0, PlaylistTracks 100 100, PlaylistTracks 100 200]"
    unfolding upt_3 by simp
  from pull_pages_and_lines [OF q] nf
  have r4: "res2 = Inl (FileNotFoundError ''playlists/Long.txt'')" and r5: "fs2 = no_files"
    by blast+
  have len: "length (sp_items long_playlist) = 250" by (simp add: items)
  from w nb len r1 r2' r3 [unfolded wl] nf r4 r5 show ?thesis
    unfolding p q by (simp only: fst_conv snd_conv simp_thms)
qed

section \<open>Tracks that do not encode\<close>

text \<open>
  C7, as stated, fails in its last part for the same reason: the single fetched item of
  \<open>two_line_title_playlist\<close> encodes without failure, the pull completes, yet the file has
  two lines for the one item.
\<close>

theorem pull_two_line_title_counterexample:
  "fst (get_playlist_tracks two_line_title_playlist) = [\<lparr>item_track = Some two_line_title\<rparr>]
   \<and> \<not> isl (item_to_str \<lparr>item_track = Some two_line_title\<rparr>)
   \<and> fst (pull_playlist_to_file two_line_title_playlist all_writable no_files
            ''playlists/Mix.txt'') = Inr ()
   \<and> file_lines
        (fst (snd (pull_playlist_to_file two_line_title_playlist all_writable no_files
                     ''playlists/Mix.txt'')))
        ''playlists/Mix.txt''
     = Inr [''Intro'' @ [LF], ''Outro                                        |                                          | 3n3Ppam7vgaVa1iaRUc9Lp'' @ [LF]]"
proof -
  let ?item = "\<lparr>item_track = Some two_line_title\<rparr>"
  let ?text = "''Intro'' @ [LF] @ ''Outro                                        |                                          | 3n3Ppam7vgaVa1iaRUc9Lp'' @ [LF]"
  have w: "all_writable ''playlists/Mix.txt'' = None"
    by (simp add: all_writable_def)
  have tracks: "sp_items two_line_title_playlist = [?item]"
    by (simp add: two_line_title_playlist_def)
  have enc: "item_to_str ?item = Inr (''Intro'' @ [LF] @ ''Outro                                        |                                          | 3n3Ppam7vgaVa1iaRUc9Lp'')"
    by (simp add: item_to_str_def two_line_title_def track_to_str_def fit_def ljust_def
          TITLE_WIDTH_def ARTIST_WIDTH_def ID_WIDTH_def eval_nat_numeral)
  have content: "concat (map written_line [?item]) = ?text"
    by (simp add: written_line_def enc)
  have rl: "readlines ?text = [''Intro'' @ [LF], ''Outro                                        |                                          | 3n3Ppam7vgaVa1iaRUc9Lp'' @ [LF]]"
    by (simp add: readlines_def)
  have "file_lines
          (fst (snd (pull_playlist_to_file two_line_title_playlist all_writable no_files
                       ''playlists/Mix.txt'')))
          ''playlists/Mix.txt''
        = Inr (readlines (concat (map written_line (sp_items two_line_title_playlist))))"
    by (simp add: pull_playlist_to_file_written w file_lines_def)
  then have lines:
    "file_lines
          (fst (snd (pull_playlist_to_file two_line_title_playlist all_writable no_files
                       ''playlists/Mix.txt'')))
          ''playlists/Mix.txt''
        = Inr [''Intro'' @ [LF], ''Outro                                        |                                          | 3n3Ppam7vgaVa1iaRUc9Lp'' @ [LF]]"
    by (simp only: tracks content rl)
  have fetched: "fst (get_playlist_tracks two_line_title_playlist) = [?item]"
    by (simp add: get_playlist_tracks_faithful tracks)
  have encoded: "\<not> isl (item_to_str ?item)"
    by (simp only: enc sum.disc not_False_eq_True)
  have res: "fst (pull_playlist_to_file two_line_title_playlist all_writable no_files
            ''playlists/Mix.txt'') = Inr ()"
    by (simp add: pull_playlist_to_file_written w)
  from fetched encoded res lines show ?thesis by (intro conjI)
qed

text \<open>
  C7, amended. For every sequence of fetched items, once the file is open the writing loop
  handles each item on its own: at every position where encoding raises, \<open>INVALID TRACK\<close> is
  written in that position and the failure is reported with its index, at every other
  position the encoded line is written, and the loop goes on to the end, so the pull
  completes. Provided no encoded line contains a line break (\<open>\n\<close> or \<open>\r\<close>), the file has
  exactly one line per fetched item, in order, however many items fail. When opening the file
  raises, the pull ends with that error and nothing is written or reported.
\<close>

theorem pull_invalid_tracks:
  assumes "pull_playlist_to_file sp open_w fs file_path = (res, fs', out, sp')"
    and "tracks = fst (get_playlist_tracks sp)"
  shows "(open_w file_path = None \<longrightarrow>
            res = Inr ()
            \<and> fs' file_path = Inr (concat (map written_line tracks))
            \<and> out = reports_from 0 tracks
            \<and> (\<forall>i < length tracks. isl (item_to_str (tracks ! i)) \<longrightarrow>
                  written_line (tracks ! i) = ''INVALID TRACK'' @ [LF]
                  \<and> SeemsInvalid i (tracks ! i) \<in> set out)
            \<and> ((\<forall>track \<in> set tracks. \<forall>line. item_to_str track = Inr line \<longrightarrow> no_break line) \<longrightarrow>
                 file_lines fs' file_path = Inr (map written_line tracks)
                 \<and> map_sum id length (file_lines fs' file_path) = Inr (length tracks)))
       \<and> (\<forall>i < length tracks. \<forall>line. item_to_str (tracks ! i) = Inr line \<longrightarrow>
             written_line (tracks ! i) = line @ [LF])
       \<and> (\<forall>e. open_w file_path = Some e \<longrightarrow> res = Inl e \<and> fs' = fs \<and> out = [])"
proof -
  from assms(2) have tracks: "tracks = sp_items sp"
    by (simp add: get_playlist_tracks_faithful)
  have written: "res = Inr () \<and> fs' file_path = Inr (concat (map written_line tracks))
                 \<and> out = reports_from 0 tracks"
    if "open_w file_path = None"
    using assms(1) by (auto simp: pull_playlist_to_file_written that tracks)
  have lines: "file_lines fs' file_path = Inr (map written_line tracks)"
    if "open_w file_path = None"
      and "\<forall>track \<in> set tracks. \<forall>line. item_to_str track = Inr line \<longrightarrow> no_break line"
    using written [OF that(1)] by (simp add: file_lines_def no_break_written [OF that(2)])
  have invalid: "\<forall>i < length tracks. isl (item_to_str (tracks ! i)) \<longrightarrow>
             written_line (tracks ! i) = ''INVALID TRACK'' @ [LF]
             \<and> SeemsInvalid i (tracks ! i) \<in> set out"
    if "open_w file_path = None"
    using written [OF that] by (simp add: reports_from_mem written_line_invalid)
  have valid: "\<forall>i < length tracks. \<forall>line. item_to_str (tracks ! i) = Inr line \<longrightarrow>
             written_line (tracks ! i) = line @ [LF]"
    by (simp add: written_line_def)
  have refused: "res = Inl e \<and> fs' = fs \<and> out = []" if "open_w file_path = Some e" for e
    using assms(1) by (auto simp: pull_playlist_to_file_refused that)
  from written lines invalid valid refused show ?thesis by simp
qed

theorem pull_invalid_tracks_witness:
  "all_writable ''playlists/Mix.txt'' = None
   \<and> no_break ''Hey Jude                                           | The Beatles, Wings                       | 0aym2LBJBk9DAYuHHutrIl''
   \<and> isl (item_to_str (fst (get_playlist_tracks mixed_playlist) ! 1))
   \<and> item_to_str (fst (get_playlist_tracks mixed_playlist) ! 0) = Inr ''Hey Jude                                           | The Beatles, Wings                       | 0aym2LBJBk9DAYuHHutrIl''
   \<and> fst (pull_playlist_to_file mixed_playlist all_writable no_files ''playlists/Mix.txt'')
       = Inr ()
   \<and> file_lines
        (fst (snd (pull_playlist_to_file mixed_playlist all_writable no_files
                     ''playlists/Mix.txt'')))
        ''playlists/Mix.txt''
     = Inr [''Hey Jude                                           | The Beatles, Wings                       | 0aym2LBJBk9DAYuHHutrIl'' @ [LF], ''INVALID TRACK'' @ [LF], ''INVALID TRACK'' @ [LF]]
   \<and> fst (snd (snd (pull_playlist_to_file mixed_playlist all_writable no_files
                      ''playlists/Mix.txt'')))
     = [SeemsInvalid 1 \<lparr>item_track = None\<rparr>, SeemsInvalid 2 \<lparr>item_track = Some short_id_track\<rparr>]
   \<and> no_folder ''playlists/Mix.txt'' = Some (FileNotFoundError ''playlists/Mix.txt'')
   \<and> fst (pull_playlist_to_file mixed_playlist no_folder no_files ''playlists/Mix.txt'')
       = Inl (FileNotFoundError ''playlists/Mix.txt'')
   \<and> fst (snd (snd (pull_playlist_to_file mixed_playlist no_folder no_files
                      ''playlists/Mix.txt''))) = []"
proof -
  obtain res fs' out sp' where
    p: "pull_playlist_to_file mixed_playlist all_writable no_files ''playlists/Mix.txt''
          = (res, fs', out, sp')"
    by (metis prod.collapse)
  obtain res2 fs2 out2 sp2 where
    q: "pull_playlist_to_file mixed_playlist no_folder no_files ''playlists/Mix.txt''
          = (res2, fs2, out2, sp2)"
    by (metis prod.collapse)
  have w: "all_writable ''playlists/Mix.txt'' = None"
    by (simp add: all_writable_def)
  have nf: "no_folder ''playlists/Mix.txt'' = Some (FileNotFoundError ''playlists/Mix.txt'')"
    by (simp add: no_folder_def)
  have t: "sp_items mixed_playlist = fst (get_playlist_tracks mixed_playlist)"
    by (simp add: get_playlist_tracks_faithful)
  have enc: "item_to_str \<lparr>item_track = Some hey_jude\<rparr> = Inr ''Hey Jude                                           | The Beatles, Wings                       | 0aym2LBJBk9DAYuHHutrIl''"
    "item_to_str \<lparr>item_track = None\<rparr> = Inl TypeError"
    "item_to_str \<lparr>item_track = Some short_id_track\<rparr>
       = Inl (AssertionError ''ID abc is not 22 characters long'')"
    by (simp_all add: item_to_str_def hey_jude_def short_id_track_def track_to_str_def fit_def
          ljust_def TITLE_WIDTH_def ARTIST_WIDTH_def ID_WIDTH_def eval_nat_numeral)
  have nb: "no_break ''Hey Jude                                           | The Beatles, Wings                       | 0aym2LBJBk9DAYuHHutrIl''"
    by (simp add: no_break_def)
  have h: "\<forall>track \<in> set (sp_items mixed_playlist).
             \<forall>line. item_to_str track = Inr line \<longrightarrow> no_break line"
    by (auto simp: mixed_playlist_def enc no_break_def)
  have r: "reports_from 0 (sp_items mixed_playlist)
     = [SeemsInvalid 1 \<lparr>item_track = None\<rparr>, SeemsInvalid 2 \<lparr>item_track = Some short_id_track\<rparr>]"
    by (simp add: mixed_playlist_def reports_from_def enc)
  have wl: "map written_line (sp_items mixed_playlist)
     = [''Hey Jude                                           | The Beatles, Wings                       | 0aym2LBJBk9DAYuHHutrIl'' @ [LF], ''INVALID TRACK'' @ [LF], ''INVALID TRACK'' @ [LF]]"
    by (simp add: mixed_playlist_def written_line_def enc)
  have i: "isl (item_to_str (sp_items mixed_playlist ! 1))"
    "item_to_str (sp_items mixed_playlist ! 0) = Inr ''Hey Jude                                           | The Beatles, Wings                       | 0aym2LBJBk9DAYuHHutrIl''"
    by (simp_all add: mixed_playlist_def enc)
  from pull_invalid_tracks [OF p t] w h
  have r1: "res = Inr ()"
    and r2: "file_lines fs' ''playlists/Mix.txt'' = Inr (map written_line (sp_items mixed_playlist))"
    and r3: "out = reports_from 0 (sp_items mixed_playlist)"
    by blast+
  from pull_invalid_tracks [OF q t] nf
  have r4: "res2 = Inl (FileNotFoundError ''playlists/Mix.txt'')" and r5: "out2 = []"
    by blast+
  from w nb i r1 r2 [unfolded wl] r3 [unfolded r] nf r4 r5 show ?thesis
    unfolding p q t [symmetric] by (simp only: fst_conv snd_conv simp_thms)
qed

section \<open>Chunked write\<close>

text \<open>
  C1. Whenever \<open>set_playlist_tracks\<close> completes without error, the remote playlist is exactly
  the given sequence of identifiers, in order, under the service model stated above (replace
  installs its chunk, append adds its chunk at the end). With a service that accepts every
  chunk of at most 100 identifiers it always completes.
\<close>

theorem push_installs_sequence:
  "(set_playlist_tracks accepts track_ids sp = (Inr (), sp') \<longrightarrow> sp_items sp' = track_ids)
   \<and> fst (set_playlist_tracks max_chunk track_ids sp) = Inr ()
   \<and> sp_items (snd (set_playlist_tracks max_chunk track_ids sp)) = track_ids"
proof -
  have ok: "fst (set_playlist_tracks max_chunk track_ids sp) = Inr ()"
    by (rule set_playlist_tracks_accepted) (simp add: max_chunk_def)
  then have "set_playlist_tracks max_chunk track_ids sp
               = (Inr (), snd (set_playlist_tracks max_chunk track_ids sp))"
    by (metis prod.collapse)
  then have "sp_items (snd (set_playlist_tracks max_chunk track_ids sp)) = track_ids"
    by (rule set_playlist_tracks_done(1))
  with ok show ?thesis
    by (simp add: set_playlist_tracks_done(1))
qed

theorem push_installs_sequence_witness:
  "set_playlist_tracks max_chunk many_ids old_playlist
     = (Inr (), \<lparr>sp_calls = [Playlist,
                  PlaylistReplaceItems (replicate 100 ''0aym2LBJBk9DAYuHHutrIl''),
                  PlaylistAddItems (replicate 100 ''3n3Ppam7vgaVa1iaRUc9Lp''),
                  PlaylistAddItems (replicate 50 ''6rqhFgbbKwnb9MLmUQDhG6'')],
               sp_items = many_ids\<rparr>)
   \<and> sp_items (snd (set_playlist_tracks max_chunk many_ids old_playlist)) = many_ids"
  using push_installs_sequence [of max_chunk many_ids old_playlist
          "snd (set_playlist_tracks max_chunk many_ids old_playlist)"]
  by (simp add: set_playlist_tracks_many_ids)



text \<open>
  C8. A push of the empty list issues exactly one write call, a replace with the empty chunk,
  and no append; when the service accepts it, the remote playlist is empty afterwards.
\<close>

theorem push_empty_list:
  "calls_since sp (snd (set_playlist_tracks accepts [] sp)) = [Playlist, PlaylistReplaceItems []]
   \<and> filter is_write (calls_since sp (snd (set_playlist_tracks accepts [] sp)))
       = [PlaylistReplaceItems []]
   \<and> (accepts [] \<longrightarrow>
        fst (set_playlist_tracks accepts [] sp) = Inr ()
        \<and> sp_items (snd (set_playlist_tracks accepts [] sp)) = [])"
  by (simp add: set_playlist_tracks_unfold set_playlist_tracks_loop_Nil calls_since_def)

theorem push_empty_list_witness:
  "max_chunk []
   \<and> sp_items old_playlist = [''7ouMYWpwJ422jRcDASZB7P'', ''2takcwOaAZWiXQijPHIx7B'']
   \<and> set_playlist_tracks max_chunk [] old_playlist
       = (Inr (), \<lparr>sp_calls = [Playlist, PlaylistReplaceItems []], sp_items = []\<rparr>)"
proof -
  have a: "max_chunk []" by (simp add: max_chunk_def)
  have "sp_calls (snd (set_playlist_tracks max_chunk [] old_playlist))
          = [Playlist, PlaylistReplaceItems []]"
    using push_empty_list [of old_playlist max_chunk]
    by (simp add: calls_since_def old_playlist_def)
  with push_empty_list [of old_playlist max_chunk] a show ?thesis
    by (cases "set_playlist_tracks max_chunk [] old_playlist")
       (auto simp: old_playlist_def)
qed

section \<open>Push from a file\<close>

text \<open>
  C9. The sentinel \<open>INVALID TRACK\<close> decodes to itself. When a file has the sentinel as its
  line \<open>i\<close> and the service accepts the chunks that come before the sentinel's chunk, a push
  of that file sends the decoded lines up to and including line \<open>i\<close> unchanged and in order:
  the identifier sent at position \<open>i\<close> is \<open>INVALID TRACK\<close>, whether or not the service then
  accepts the chunk that holds it. A completed push has sent exactly the decoded lines of the
  whole file, unfiltered.
\<close>

theorem push_sends_sentinel:
  assumes "fs file_path = Inr content"
    and "i < length (readlines content)"
    and "readlines content ! i = ''INVALID TRACK'' @ [LF]"
    and "\<forall>j < i div 100.
           accepts (take 100 (drop (100 * j) (map track_id_from_str (readlines content))))"
  shows "track_id_from_str ''INVALID TRACK'' = ''INVALID TRACK''
       \<and> i < length (sent_ids (calls_since sp (snd (push_playlist_from_file accepts fs file_path sp))))
       \<and> sent_ids (calls_since sp (snd (push_playlist_from_file accepts fs file_path sp))) ! i
           = ''INVALID TRACK''
       \<and> take (Suc i) (sent_ids (calls_since sp (snd (push_playlist_from_file accepts fs file_path sp))))
           = take (Suc i) (map track_id_from_str (readlines content))
       \<and> (fst (push_playlist_from_file accepts fs file_path sp) = Inr () \<longrightarrow>
            sent_ids (calls_since sp (snd (push_playlist_from_file accepts fs file_path sp)))
              = map track_id_from_str (readlines content))"
proof -
  let ?ids = "map track_id_from_str (readlines content)"
  let ?sent = "sent_ids (calls_since sp (snd (push_playlist_from_file accepts fs file_path sp)))"
  let ?k = "100 * Suc (i div 100)"
  from assms(1) have push: "push_playlist_from_file accepts fs file_path sp
                              = set_playlist_tracks accepts ?ids sp"
    by (simp add: push_playlist_from_file_def)
  from set_playlist_tracks_prefix [OF assms(4), of sp] obtain rest where
    sent: "?sent = take ?k ?ids @ rest"
    unfolding push by blast
  have "i < 100 + 100 * (i div 100)"
    by (rule dividend_less_times_div) simp
  then have ik: "Suc i \<le> ?k" by simp
  from assms(2) have il: "i < length ?ids" by simp
  note upto = sent_prefix_upto [OF sent ik il]
  from upto(3) have "?sent ! i = ?ids ! i" .
  also from assms(2) have "\<dots> = track_id_from_str (readlines content ! i)" by (rule nth_map)
  also have "\<dots> = ''INVALID TRACK''"
    by (simp only: assms(3) track_id_from_str_sentinel(2))
  finally have at: "?sent ! i = ''INVALID TRACK''" .
  have whole: "?sent = ?ids" if "fst (push_playlist_from_file accepts fs file_path sp) = Inr ()"
  proof -
    from that have "set_playlist_tracks accepts ?ids sp
                      = (Inr (), snd (set_playlist_tracks accepts ?ids sp))"
      unfolding push by (metis prod.collapse)
    then show ?thesis unfolding push by (rule set_playlist_tracks_done(3))
  qed
  from track_id_from_str_sentinel(1) upto(1) at upto(2) whole show ?thesis by blast
qed

theorem push_sends_sentinel_witness:
  "long_pulled_files ''playlists/Long.txt''
     = Inr (concat (map (\<lambda>l. l @ [LF]) long_pulled_lines))
   \<and> length (readlines (concat (map (\<lambda>l. l @ [LF]) long_pulled_lines))) = 150
   \<and> readlines (concat (map (\<lambda>l. l @ [LF]) long_pulled_lines)) ! 120 = ''INVALID TRACK'' @ [LF]
   \<and> rejects_sentinel (replicate 100 ''0aym2LBJBk9DAYuHHutrIl'')
   \<and> fst (push_playlist_from_file rejects_sentinel long_pulled_files ''playlists/Long.txt''
            old_playlist) = Inl (ApiError ''playlist_add_items'')
   \<and> sent_ids (calls_since old_playlist
        (snd (push_playlist_from_file rejects_sentinel long_pulled_files ''playlists/Long.txt''
                old_playlist))) ! 120 = ''INVALID TRACK''
   \<and> fst (push_playlist_from_file max_chunk long_pulled_files ''playlists/Long.txt''
            old_playlist) = Inr ()
   \<and> sent_ids (calls_since old_playlist
        (snd (push_playlist_from_file max_chunk long_pulled_files ''playlists/Long.txt''
                old_playlist)))
       = replicate 120 ''0aym2LBJBk9DAYuHHutrIl'' @ [''INVALID TRACK'']
         @ replicate 29 ''0aym2LBJBk9DAYuHHutrIl''"
proof -
  let ?content = "concat (map (\<lambda>l. l @ [LF]) long_pulled_lines)"
  let ?ids = "replicate 120 ''0aym2LBJBk9DAYuHHutrIl'' @ [''INVALID TRACK'']
         @ replicate 29 ''0aym2LBJBk9DAYuHHutrIl''"
  have f: "long_pulled_files ''playlists/Long.txt'' = Inr ?content"
    by (simp add: long_pulled_files_def)
  have "\<forall>l \<in> set long_pulled_lines. no_break l"
    by (simp add: long_pulled_lines_def no_break_def)
  then have rl: "readlines ?content = map (\<lambda>l. l @ [LF]) long_pulled_lines"
    by (rule readlines_written)
  have n: "length (readlines ?content) = 150"
    unfolding rl by (simp add: long_pulled_lines_def)
  have i: "120 < length (readlines ?content)" unfolding n by simp
  have l: "readlines ?content ! 120 = ''INVALID TRACK'' @ [LF]"
    unfolding rl by (simp add: long_pulled_lines_def nth_append)
  have ids: "map track_id_from_str (readlines ?content) = ?ids"
    unfolding rl
    by (simp add: long_pulled_lines_def track_id_from_str_def strip_def py_isspace_def Let_def)
  have a0: "rejects_sentinel (replicate 100 ''0aym2LBJBk9DAYuHHutrIl'')"
    by (simp add: rejects_sentinel_def)
  have h1: "\<forall>j < 120 div 100.
           rejects_sentinel (take 100 (drop (100 * j) (map track_id_from_str (readlines ?content))))"
    unfolding ids using a0 by simp
  have h2: "\<forall>j < 120 div 100.
           max_chunk (take 100 (drop (100 * j) (map track_id_from_str (readlines ?content))))"
    by (simp add: max_chunk_def)
  have refused: "fst (push_playlist_from_file rejects_sentinel long_pulled_files
                        ''playlists/Long.txt'' old_playlist) = Inl (ApiError ''playlist_add_items'')"
    unfolding push_playlist_from_file_def f sum.case Let_def ids
    by (simp add: set_playlist_tracks_unfold set_playlist_tracks_loop_step rejects_sentinel_def)
  have "fst (push_playlist_from_file max_chunk long_pulled_files
                        ''playlists/Long.txt'' old_playlist)
          = fst (set_playlist_tracks max_chunk (map track_id_from_str (readlines ?content))
                   old_playlist)"
    unfolding push_playlist_from_file_def f sum.case Let_def by (rule refl)
  also have "\<dots> = Inr ()"
    by (rule set_playlist_tracks_accepted) (simp add: max_chunk_def)
  finally have completed: "fst (push_playlist_from_file max_chunk long_pulled_files
                        ''playlists/Long.txt'' old_playlist) = Inr ()" .
  from push_sends_sentinel [of long_pulled_files "''playlists/Long.txt''" ?content 120
         rejects_sentinel old_playlist, OF f i l h1]
  have s1: "sent_ids (calls_since old_playlist
        (snd (push_playlist_from_file rejects_sentinel long_pulled_files ''playlists/Long.txt''
                old_playlist))) ! 120 = ''INVALID TRACK''"
    by blast
  from push_sends_sentinel [of long_pulled_files "''playlists/Long.txt''" ?content 120
         max_chunk old_playlist, OF f i l h2] completed
  have s2: "sent_ids (calls_since old_playlist
        (snd (push_playlist_from_file max_chunk long_pulled_files ''playlists/Long.txt''
                old_playlist))) = ?ids"
    unfolding ids by blast
  from f n l a0 refused s1 completed s2 show ?thesis by (intro conjI)
qed

text \<open>
  C10. When opening or reading the file fails, the push ends with that error, no call reaches
  the service and the remote playlist is unchanged. When the file is read, the calls are
  those of \<open>set_playlist_tracks\<close> on the identifiers of all its lines: the file is read and
  decoded completely before the first remote write.
\<close>

theorem push_unreadable_file:
  "(fs file_path = Inl e \<longrightarrow>
      push_playlist_from_file accepts fs file_path sp = (Inl e, sp)
      \<and> calls_since sp (snd (push_playlist_from_file accepts fs file_path sp)) = []
      \<and> sp_items (snd (push_playlist_from_file accepts fs file_path sp)) = sp_items sp)
   \<and> (fs file_path = Inr content \<longrightarrow>
      push_playlist_from_file accepts fs file_path sp
        = set_playlist_tracks accepts (map track_id_from_str (readlines content)) sp)"
  by (simp add: push_playlist_from_file_def calls_since_def)

theorem push_unreadable_file_witness:
  "no_files ''playlists/Missing.txt'' = Inl (FileNotFoundError ''playlists/Missing.txt'')
   \<and> push_playlist_from_file max_chunk no_files ''playlists/Missing.txt'' old_playlist
       = (Inl (FileNotFoundError ''playlists/Missing.txt''), old_playlist)
   \<and> pulled_files ''playlists/Mix.txt'' = Inr (''Hey Jude                                           | The Beatles, Wings                       | 0aym2LBJBk9DAYuHHutrIl'' @ [LF] @ ''INVALID TRACK'' @ [LF])
   \<and> push_playlist_from_file max_chunk pulled_files ''playlists/Mix.txt'' old_playlist
       = set_playlist_tracks max_chunk
           (map track_id_from_str (readlines (''Hey Jude                                           | The Beatles, Wings                       | 0aym2LBJBk9DAYuHHutrIl'' @ [LF] @ ''INVALID TRACK'' @ [LF])))
           old_playlist"
proof -
  have a: "no_files ''playlists/Missing.txt'' = Inl (FileNotFoundError ''playlists/Missing.txt'')"
    by (simp add: no_files_def)
  have b: "pulled_files ''playlists/Mix.txt'' = Inr (''Hey Jude                                           | The Beatles, Wings                       | 0aym2LBJBk9DAYuHHutrIl'' @ [LF] @ ''INVALID TRACK'' @ [LF])"
    by (simp add: pulled_files_def)
  from push_unreadable_file [of no_files "''playlists/Missing.txt''"
         "FileNotFoundError ''playlists/Missing.txt''" max_chunk old_playlist]
       push_unreadable_file [of pulled_files "''playlists/Mix.txt''" _ max_chunk old_playlist
         "''Hey Jude                                           | The Beatles, Wings                       | 0aym2LBJBk9DAYuHHutrIl'' @ [LF] @ ''INVALID TRACK'' @ [LF]"]
       a b
  show ?thesis by blast
qed

end
